theory Spec2Isabelle
  imports Complex_Main
begin

section \<open>Errors\<close>

text \<open>
  Every exception the modelled code can raise is a value. The constructor is the Python
  exception class; for \<open>ValueError\<close> the argument tells the raising sites apart, as the
  message does in Python. \<open>ErrorCode n\<close> is the message \<open>f"Error code: {n}"\<close> of
  \<open>propagate\<close>.
\<close>

datatype reason =
  CouldNotConvertFloat | CannotConvertNaN | YearOutOfRange | NotEnoughLines | ErrorCode int

datatype error = ValueError reason | OverflowError | IndexError | KeyError | RequestException

section \<open>Strings\<close>

text \<open>
  A Python \<open>str\<close> is modelled as a \<open>string\<close>; a character is a code point below 256
  (the catalog is ASCII text). \<open>is_linebreak\<close> lists the line boundaries of
  \<open>str.splitlines\<close> and \<open>is_space\<close> the characters of \<open>str.isspace\<close> in that range.
\<close>

definition is_linebreak :: "char \<Rightarrow> bool" where
  "is_linebreak c \<longleftrightarrow>
     c \<in> {CHR 0x0A, CHR 0x0B, CHR 0x0C, CHR 0x0D, CHR 0x1C, CHR 0x1D, CHR 0x1E, CHR 0x85}"

definition is_space :: "char \<Rightarrow> bool" where
  "is_space c \<longleftrightarrow>
     c \<in> {CHR 0x09, CHR 0x0A, CHR 0x0B, CHR 0x0C, CHR 0x0D,
          CHR 0x1C, CHR 0x1D, CHR 0x1E, CHR 0x1F, CHR 0x20, CHR 0x85, CHR 0xA0}"

text \<open>
  \<open>str.splitlines()\<close>: the text is cut at every line boundary, \<open>\r\n\<close> counting as one;
  the boundaries are dropped and no empty last line is produced when the text ends with
  one. \<open>cur\<close> is the line being read.
\<close>

fun splitlines_from :: "string \<Rightarrow> string \<Rightarrow> string list" where
  "splitlines_from cur [] = (if cur = [] then [] else [cur])"
| "splitlines_from cur (c # cs) =
     (if c = CHR 0x0D \<and> cs \<noteq> [] \<and> hd cs = CHR 0x0A then cur # splitlines_from [] (tl cs)
      else if is_linebreak c then cur # splitlines_from [] cs
      else splitlines_from (cur @ [c]) cs)"

definition splitlines :: "string \<Rightarrow> string list" where
  "splitlines s = splitlines_from [] s"

text \<open>\<open>str.strip()\<close> with no argument: leading and trailing whitespace removed.\<close>

definition strip :: "string \<Rightarrow> string" where
  "strip s = rev (dropWhile is_space (rev (dropWhile is_space s)))"

text \<open>\<open>s[a:b]\<close> for non-negative \<open>a\<close> and \<open>b\<close>; a slice never raises.\<close>

definition slice :: "nat \<Rightarrow> nat \<Rightarrow> 'a list \<Rightarrow> 'a list" where
  "slice a b s = drop a (take b s)"

section \<open>tle\_fetcher.py\<close>

record SatelliteTLE =
  name :: string
  line1 :: string
  line2 :: string

type_synonym tle_dict = "string \<rightharpoonup> SatelliteTLE"

text \<open>
  The world outside the process: what the catalog endpoint answers at this moment
  (\<open>None\<close>: \<open>requests.get\<close> raises), and the trace of the requests issued so far.
\<close>

record world =
  catalog :: "string option"
  requests_log :: "string list"

definition catalog_url :: string where
  "catalog_url = ''https://celestrak.org/NORAD/elements/gp.php?GROUP=active&FORMAT=tle''"

definition requests_get :: "string \<Rightarrow> world \<Rightarrow> (error + string) \<times> world" where
  "requests_get url w =
     (case catalog w of
        None \<Rightarrow> Inl RequestException
      | Some text \<Rightarrow> Inr text,
      w\<lparr>requests_log := requests_log w @ [url]\<rparr>)"

text \<open>
  The globals of the loaded module \<open>tle_fetcher\<close>: \<open>r\<close>, of which only \<open>r.text\<close> is read.
\<close>

record tle_fetcher =
  r_text :: string

text \<open>
  Executing the module body, which Python does once per process, at the first import:
  line 5, \<open>r = requests.get(...)\<close>, then the definitions of the class and of \<open>fetch_tle\<close>.
\<close>

definition import_tle_fetcher :: "world \<Rightarrow> (error + tle_fetcher) \<times> world" where
  "import_tle_fetcher w =
     (case requests_get catalog_url w of
        (Inl e, w') \<Rightarrow> (Inl e, w')
      | (Inr text, w') \<Rightarrow> (Inr \<lparr>r_text = text\<rparr>, w'))"

text \<open>\<open>range(0, n, 3)\<close>.\<close>

definition range3 :: "nat \<Rightarrow> nat list" where
  "range3 n = map (\<lambda>k. 3 * k) [0..<(n + 2) div 3]"

text \<open>
  The body of the \<open>for\<close> loop of \<open>fetch_tle\<close>, for the remaining indices. An index past the
  end of \<open>lines\<close> raises \<open>IndexError\<close>.
\<close>

fun fetch_loop :: "string list \<Rightarrow> nat list \<Rightarrow> tle_dict \<Rightarrow> error + tle_dict" where
  "fetch_loop lines [] tle = Inr tle"
| "fetch_loop lines (i # is) tle =
     (if i + 2 < length lines then
        let name = strip (lines ! i);
            line1 = lines ! (i + 1);
            line2 = lines ! (i + 2);
            s = \<lparr>name = name, line1 = line1, line2 = line2\<rparr>
        in fetch_loop lines is (tle(name \<mapsto> s))
      else Inl IndexError)"

definition fetch_tle :: "tle_fetcher \<Rightarrow> error + tle_dict" where
  "fetch_tle m =
     (let lines = splitlines (r_text m) in
      if length lines mod 3 \<noteq> 0 then Inl (ValueError NotEnoughLines)
      else fetch_loop lines (range3 (length lines)) Map.empty)"

section \<open>Numbers\<close>

text \<open>
  A finite Python \<open>float\<close> is modelled as the rational number it stands for: floating
  point rounding is left out, so sums, products, \<open>//\<close> and \<open>%\<close> are exact. The floats
  \<open>inf\<close>, \<open>-inf\<close> and \<open>nan\<close> are the one value \<open>NonFinite\<close>.
\<close>

datatype pyfloat = Finite rat | NonFinite

text \<open>\<open>round()\<close> of a float: to the nearest integer, a tie going to the even one.\<close>

definition round_half_even :: "rat \<Rightarrow> int" where
  "round_half_even q =
     (let f = \<lfloor>q\<rfloor>; d = q - of_int f in
      if d < 1 / 2 then f
      else if 1 / 2 < d then f + 1
      else if even f then f else f + 1)"

definition is_digit :: "char \<Rightarrow> bool" where
  "is_digit c \<longleftrightarrow> (48::nat) \<le> of_char c \<and> of_char c \<le> (57::nat)"

definition digit_val :: "char \<Rightarrow> nat" where
  "digit_val c = of_char c - 48"

definition digits_val :: "string \<Rightarrow> nat" where
  "digits_val ds = foldl (\<lambda>a c. 10 * a + digit_val c) 0 ds"

text \<open>
  The grammar of \<open>float(str)\<close>:
  \<^verbatim>\<open>
  digitpart   ::= digit (["_"] digit)*
  number      ::= [digitpart] "." digitpart | digitpart ["."]
  exponent    ::= ("e" | "E") ["+" | "-"] digitpart
  floatvalue  ::= ["+" | "-"] (number [exponent] | "inf" | "infinity" | "nan")
  \<close>
  with \<open>inf\<close>, \<open>infinity\<close> and \<open>nan\<close> in any case, between optional whitespace.
  \<open>digitpart_tail\<close> reads \<open>(["_"] digit)*\<close> and \<open>digitpart\<close> a whole digitpart (none:
  no digit is returned); both return the digits read and the rest of the text.
\<close>

fun digitpart_tail :: "string \<Rightarrow> string \<times> string" where
  "digitpart_tail [] = ([], [])"
| "digitpart_tail [c] = (if is_digit c then ([c], []) else ([], [c]))"
| "digitpart_tail (c # d # cs) =
     (if is_digit c then (let (ds, rest) = digitpart_tail (d # cs) in (c # ds, rest))
      else if c = CHR ''_'' \<and> is_digit d then (let (ds, rest) = digitpart_tail cs in (d # ds, rest))
      else ([], c # d # cs))"

definition digitpart :: "string \<Rightarrow> string \<times> string" where
  "digitpart s =
     (case s of
        [] \<Rightarrow> ([], [])
      | c # cs \<Rightarrow>
          if is_digit c then (let (ds, rest) = digitpart_tail cs in (c # ds, rest))
          else ([], s))"

definition take_sign :: "string \<Rightarrow> bool \<times> string" where
  "take_sign s =
     (case s of
        c # cs \<Rightarrow> if c = CHR ''-'' then (True, cs) else if c = CHR ''+'' then (False, cs) else (False, s)
      | [] \<Rightarrow> (False, s))"

text \<open>The exponent, if any, as a power of ten; \<open>None\<close> when the text is no exponent.\<close>

definition exponent :: "string \<Rightarrow> rat option" where
  "exponent s =
     (case s of
        [] \<Rightarrow> Some 1
      | c # cs \<Rightarrow>
          if c = CHR ''e'' \<or> c = CHR ''E'' then
            (let (neg, t) = take_sign cs; (ds, rest) = digitpart t in
             if ds = [] \<or> rest \<noteq> [] then None
             else Some (if neg then 1 / 10 ^ digits_val ds else 10 ^ digits_val ds))
          else None)"

definition floatnumber :: "string \<Rightarrow> rat option" where
  "floatnumber s =
     (let (ip, t) = digitpart s;
          (fp, u) = (case t of
                       c # cs \<Rightarrow> if c = CHR ''.'' then digitpart cs else ([], t)
                     | [] \<Rightarrow> ([], t))
      in if ip = [] \<and> fp = [] then None
         else (case exponent u of
                 None \<Rightarrow> None
               | Some e \<Rightarrow>
                   Some ((of_nat (digits_val ip) + of_nat (digits_val fp) / 10 ^ length fp) * e)))"

definition lower :: "char \<Rightarrow> char" where
  "lower c = (if (65::nat) \<le> of_char c \<and> of_char c \<le> (90::nat) then char_of (of_char c + (32::nat)) else c)"

text \<open>
  The whitespace \<open>float()\<close> removes around the literal: the ASCII whitespace and the
  spaces beyond ASCII.
\<close>

definition is_float_space :: "char \<Rightarrow> bool" where
  "is_float_space c \<longleftrightarrow>
     c \<in> {CHR 0x09, CHR 0x0A, CHR 0x0B, CHR 0x0C, CHR 0x0D, CHR 0x20, CHR 0x85, CHR 0xA0}"

definition py_float :: "string \<Rightarrow> error + pyfloat" where
  "py_float s =
     (let t = rev (dropWhile is_float_space (rev (dropWhile is_float_space s)));
          (neg, u) = take_sign t
      in if map lower u \<in> {''inf'', ''infinity'', ''nan''} then Inr NonFinite
         else (case floatnumber u of
                 None \<Rightarrow> Inl (ValueError CouldNotConvertFloat)
               | Some q \<Rightarrow> Inr (Finite (if neg then - q else q))))"

section \<open>Dates and times\<close>

text \<open>
  Python's \<open>datetime\<close> module, as far as \<open>propagate.py\<close> uses it: naive datetimes of the
  proleptic Gregorian calendar with microsecond resolution, years 1 to 9999. The
  ordinal of a date is its day number, 1 for 1 January of year 1.
\<close>

definition is_leap :: "int \<Rightarrow> bool" where
  "is_leap year \<longleftrightarrow> year mod 4 = 0 \<and> (year mod 100 \<noteq> 0 \<or> year mod 400 = 0)"

definition days_before_year :: "int \<Rightarrow> int" where
  "days_before_year year = (let y = year - 1 in y * 365 + y div 4 - y div 100 + y div 400)"

definition DAYS_IN_MONTH :: "int list" where
  "DAYS_IN_MONTH = [-1, 31, 28, 31, 30, 31, 30, 31, 31, 30, 31, 30, 31]"

definition DAYS_BEFORE_MONTH :: "int list" where
  "DAYS_BEFORE_MONTH = [-1, 0, 31, 59, 90, 120, 151, 181, 212, 243, 273, 304, 334]"

definition days_before_month :: "int \<Rightarrow> int \<Rightarrow> int" where
  "days_before_month year month =
     DAYS_BEFORE_MONTH ! nat month + (if 2 < month \<and> is_leap year then 1 else 0)"

definition ymd2ord :: "int \<Rightarrow> int \<Rightarrow> int \<Rightarrow> int" where
  "ymd2ord year month day = days_before_year year + days_before_month year month + day"

definition DI400Y :: int where "DI400Y = 146097"
definition DI100Y :: int where "DI100Y = 36524"
definition DI4Y :: int where "DI4Y = 1461"

text \<open>
  The end of \<open>_ord2ymd\<close>: the month of day \<open>n\<close> of a year, counted from 0, and the number
  of days of the year before that month. The month is estimated, and the estimate
  lowered by one when it is too large.
\<close>

definition month_preceding :: "bool \<Rightarrow> int \<Rightarrow> int \<times> int" where
  "month_preceding leapyear n =
     (let month = (n + 50) div 32;
          preceding = DAYS_BEFORE_MONTH ! nat month + (if 2 < month \<and> leapyear then 1 else 0)
      in if n < preceding
         then (month - 1,
               preceding - (DAYS_IN_MONTH ! nat (month - 1)
                            + (if month - 1 = 2 \<and> leapyear then 1 else 0)))
         else (month, preceding))"

text \<open>The date of an ordinal, as (year, month, day).\<close>

definition ord2ymd :: "int \<Rightarrow> int \<times> int \<times> int" where
  "ord2ymd n0 =
     (let n = n0 - 1;
          n400 = n div DI400Y; n = n mod DI400Y;
          year = n400 * 400 + 1;
          n100 = n div DI100Y; n = n mod DI100Y;
          n4 = n div DI4Y; n = n mod DI4Y;
          n1 = n div 365; n = n mod 365;
          year = year + n100 * 100 + n4 * 4 + n1
      in if n1 = 4 \<or> n100 = 4 then (year - 1, 12, 31)
         else
           let leapyear = (n1 = 3 \<and> (n4 \<noteq> 24 \<or> n100 = 3));
               (month, preceding) = month_preceding leapyear n
           in (year, month, n - preceding + 1))"

record datetime =
  year :: int
  month :: int
  day :: int
  hour :: int
  minute :: int
  second :: int
  microsecond :: int

definition MAXORDINAL :: int where "MAXORDINAL = 3652059"

definition US_PER_DAY :: int where "US_PER_DAY = 86400000000"

text \<open>
  A \<open>timedelta\<close> is modelled as its length in microseconds, a whole number; Python keeps
  the same number as days, seconds and microseconds. The constructor rounds a
  fractional argument to the microsecond, ties to even, and raises \<open>OverflowError\<close>
  when the number of days is beyond 999999999 in magnitude.
\<close>

type_synonym timedelta = int

definition new_timedelta :: "int \<Rightarrow> error + timedelta" where
  "new_timedelta us = (if 999999999 < \<bar>us div US_PER_DAY\<bar> then Inl OverflowError else Inr us)"

definition timedelta_days :: "rat \<Rightarrow> error + timedelta" where
  "timedelta_days days = new_timedelta (round_half_even (days * 86400 * 1000000))"

definition timedelta_minutes :: "rat \<Rightarrow> error + timedelta" where
  "timedelta_minutes minutes = new_timedelta (round_half_even (minutes * 60 * 1000000))"

text \<open>\<open>datetime(year, 1, 1)\<close>: midnight of 1 January; the year is checked.\<close>

definition datetime_jan1 :: "int \<Rightarrow> error + datetime" where
  "datetime_jan1 y =
     (if 1 \<le> y \<and> y \<le> 9999
      then Inr \<lparr>year = y, month = 1, day = 1, hour = 0, minute = 0, second = 0, microsecond = 0\<rparr>
      else Inl (ValueError YearOutOfRange))"

definition toordinal :: "datetime \<Rightarrow> int" where
  "toordinal dt = ymd2ord (year dt) (month dt) (day dt)"

text \<open>The microseconds from the start of ordinal day 0 to the datetime.\<close>

definition to_us :: "datetime \<Rightarrow> int" where
  "to_us dt =
     toordinal dt * US_PER_DAY
       + ((hour dt * 60 + minute dt) * 60 + second dt) * 1000000 + microsecond dt"

text \<open>
  \<open>datetime + timedelta\<close>: the sum is normalised into days, seconds and microseconds,
  and is a datetime when its day is an ordinal from 1 to \<open>MAXORDINAL\<close>; otherwise
  \<open>OverflowError\<close> is raised.
\<close>

definition datetime_add :: "datetime \<Rightarrow> timedelta \<Rightarrow> error + datetime" where
  "datetime_add dt delta =
     (let total = to_us dt + delta;
          days = total div US_PER_DAY;
          rest = total mod US_PER_DAY;
          seconds = rest div 1000000;
          (y, m, d) = ord2ymd days
      in if 0 < days \<and> days \<le> MAXORDINAL
         then Inr \<lparr>year = y, month = m, day = d,
                   hour = seconds div 3600, minute = seconds mod 3600 div 60,
                   second = seconds mod 60, microsecond = rest mod 1000000\<rparr>
         else Inl OverflowError)"

section \<open>propagate.py\<close>

text \<open>
  The package \<open>sgp4\<close> is not part of the repository: the three functions
  \<open>propagate.py\<close> imports from it are parameters of the model. \<open>'f\<close> is the library's
  float, \<open>'satrec\<close> its satellite record and \<open>'vec\<close> a vector of three floats.
  \<open>sgp4 satrec jd fr\<close> returns the error code, the position and the velocity.
\<close>

record ('f, 'satrec, 'vec) sgp4_api =
  jday :: "int \<Rightarrow> int \<Rightarrow> int \<Rightarrow> int \<Rightarrow> int \<Rightarrow> rat \<Rightarrow> 'f \<times> 'f"
  twoline2rv :: "string \<Rightarrow> string \<Rightarrow> error + 'satrec"
  sgp4 :: "'satrec \<Rightarrow> 'f \<Rightarrow> 'f \<Rightarrow> int \<times> 'vec \<times> 'vec"

text \<open>
  \<open>int(epoch // 1000)\<close> raises \<open>ValueError\<close> on a float that is not finite; \<open>epoch % 1000\<close>
  has the sign of 1000.
\<close>

definition tle_epoch_to_datetime :: "pyfloat \<Rightarrow> error + datetime" where
  "tle_epoch_to_datetime epoch =
     (case epoch of
        NonFinite \<Rightarrow> Inl (ValueError CannotConvertNaN)
      | Finite e \<Rightarrow>
          let year_short = \<lfloor>e / 1000\<rfloor>;
              day_of_year = e - 1000 * of_int \<lfloor>e / 1000\<rfloor>;
              year = 2000 + year_short
          in case datetime_jan1 year of
               Inl err \<Rightarrow> Inl err
             | Inr base \<Rightarrow>
                 (case timedelta_days day_of_year of
                    Inl err \<Rightarrow> Inl err
                  | Inr delta \<Rightarrow> datetime_add base delta))"

definition datetime_to_jday :: "('f, 'satrec, 'vec) sgp4_api \<Rightarrow> datetime \<Rightarrow> 'f \<times> 'f" where
  "datetime_to_jday api dt =
     (let second = of_int (second dt) + of_int (microsecond dt) / 1000000
      in jday api (year dt) (month dt) (day dt) (hour dt) (minute dt) second)"

text \<open>
  Lines 74 to 79 of \<open>propagate\<close>: the datetime \<open>dt_tsince\<close> for which the orbit is
  evaluated.
\<close>

definition dt_tsince :: "SatelliteTLE \<Rightarrow> rat \<Rightarrow> error + datetime" where
  "dt_tsince sat tsince_minutes =
     (case py_float (slice 18 32 (line1 sat)) of
        Inl err \<Rightarrow> Inl err
      | Inr extract_epoch \<Rightarrow>
          (case tle_epoch_to_datetime extract_epoch of
             Inl err \<Rightarrow> Inl err
           | Inr dt_epoch \<Rightarrow>
               (case timedelta_minutes tsince_minutes of
                  Inl err \<Rightarrow> Inl err
                | Inr tsince \<Rightarrow> datetime_add dt_epoch tsince)))"

definition propagate ::
  "('f, 'satrec, 'vec) sgp4_api \<Rightarrow> SatelliteTLE \<Rightarrow> rat \<Rightarrow> error + 'vec \<times> 'vec" where
  "propagate api sat tsince_minutes =
     (case dt_tsince sat tsince_minutes of
        Inl err \<Rightarrow> Inl err
      | Inr dt \<Rightarrow>
          let jday_tsince = datetime_to_jday api dt
          in case twoline2rv api (line1 sat) (line2 sat) of
               Inl err \<Rightarrow> Inl err
             | Inr satrec \<Rightarrow>
                 (case sgp4 api satrec (fst jday_tsince) (snd jday_tsince) of
                    (error_code, position, velocity) \<Rightarrow>
                      if error_code \<noteq> 0 then Inl (ValueError (ErrorCode error_code))
                      else Inr (position, velocity)))"

section \<open>main.py\<close>

text \<open>
  The script: its imports load \<open>tle_fetcher\<close>, then the catalog is parsed, the ISS looked
  up and propagated to the epoch. The result is the pair the script prints.
\<close>

definition main ::
  "('f, 'satrec, 'vec) sgp4_api \<Rightarrow> world \<Rightarrow> (error + 'vec \<times> 'vec) \<times> world" where
  "main api w =
     (case import_tle_fetcher w of
        (Inl err, w') \<Rightarrow> (Inl err, w')
      | (Inr m, w') \<Rightarrow>
          (case fetch_tle m of
             Inl err \<Rightarrow> (Inl err, w')
           | Inr tles \<Rightarrow>
               (case tles ''ISS (ZARYA)'' of
                  None \<Rightarrow> (Inl KeyError, w')
                | Some iss \<Rightarrow> (propagate api iss 0, w'))))"

section \<open>A process after the import\<close>

text \<open>
  What can happen once \<open>tle_fetcher\<close> is loaded: the remote catalog changes, or the
  program calls \<open>fetch_tle\<close>. \<open>run\<close> returns the results of the calls, in order, and
  the world at the end.
\<close>

datatype event = CatalogChanges "string option" | CallFetchTle

fun run :: "tle_fetcher \<Rightarrow> world \<Rightarrow> event list \<Rightarrow> (error + tle_dict) list \<times> world" where
  "run m w [] = ([], w)"
| "run m w (CatalogChanges c # es) = run m (w\<lparr>catalog := c\<rparr>) es"
| "run m w (CallFetchTle # es) = (let (rs, w') = run m w es in (fetch_tle m # rs, w'))"

section \<open>The specification's terms\<close>

text \<open>
  The 3-line groups of a catalog: group \<open>k\<close> is made of lines \<open>3k\<close>, \<open>3k + 1\<close> and
  \<open>3k + 2\<close>.
\<close>

definition group_name :: "string list \<Rightarrow> nat \<Rightarrow> string" where
  "group_name ls k = strip (ls ! (3 * k))"

definition group_record :: "string list \<Rightarrow> nat \<Rightarrow> SatelliteTLE" where
  "group_record ls k =
     \<lparr>name = strip (ls ! (3 * k)), line1 = ls ! (3 * k + 1), line2 = ls ! (3 * k + 2)\<rparr>"

text \<open>Group \<open>k\<close> is the last of the \<open>n\<close> groups with its name.\<close>

definition last_of_name :: "string list \<Rightarrow> nat \<Rightarrow> nat \<Rightarrow> bool" where
  "last_of_name ls n k \<longleftrightarrow> (\<forall>j \<in> {k + 1..<n}. group_name ls j \<noteq> group_name ls k)"

text \<open>One pass of the loop of \<open>fetch_tle\<close>, on group \<open>k\<close>.\<close>

definition store_group :: "string list \<Rightarrow> tle_dict \<Rightarrow> nat \<Rightarrow> tle_dict" where
  "store_group ls tle k = tle(group_name ls k \<mapsto> group_record ls k)"

text \<open>
  The check of an element line in the specification: 69 characters, the last one the
  sum modulo 10 of the digits of the first 68, a minus sign counting as 1.
\<close>

definition checksum :: "string \<Rightarrow> nat" where
  "checksum l =
     (\<Sum>c \<leftarrow> take 68 l. if is_digit c then digit_val c else if c = CHR ''-'' then 1 else 0) mod 10"

definition well_formed_line :: "string \<Rightarrow> bool" where
  "well_formed_line l \<longleftrightarrow>
     length l = 69 \<and> is_digit (l ! 68) \<and> digit_val (l ! 68) = checksum l"

text \<open>
  The split-year convention of the specification, and the instant the specification gives
  a query: the epoch, day 1 being 1 January of the epoch year, plus the minutes since
  the epoch. Instants are microseconds from the start of ordinal day 0, as \<open>to_us\<close>.
\<close>

definition split_year :: "int \<Rightarrow> int" where
  "split_year yy = (if yy < 57 then 2000 + yy else 1900 + yy)"

definition spec_epoch_us :: "int \<Rightarrow> rat \<Rightarrow> rat" where
  "spec_epoch_us yy day_of_year =
     of_int (ymd2ord (split_year yy) 1 1 * US_PER_DAY) + (day_of_year - 1) * 86400 * 1000000"

definition spec_query_us :: "int \<Rightarrow> rat \<Rightarrow> rat \<Rightarrow> rat" where
  "spec_query_us yy day_of_year tsince_minutes =
     spec_epoch_us yy day_of_year + tsince_minutes * 60 * 1000000"

section \<open>Sample inputs\<close>

definition iss_line1 :: string where
  "iss_line1 = ''1 25544U 98067A   24001.00000000  .00016717  00000-0  10270-3 0  9992''"

definition iss_line2 :: string where
  "iss_line2 = ''2 25544  51.6416 247.4627 0006703 130.5360 325.0288 15.72125391430002''"

definition iss :: SatelliteTLE where
  "iss = \<lparr>name = ''ISS (ZARYA)'', line1 = iss_line1, line2 = iss_line2\<rparr>"

text \<open>A catalog of two groups with one name, and one whose element lines are damaged.\<close>

definition twice_catalog :: tle_fetcher where
  "twice_catalog = \<lparr>r_text = ''ISS\<newline>1 old\<newline>2 old\<newline> ISS \<newline>1 new\<newline>2 new\<newline>''\<rparr>"

definition damaged_line1 :: string where
  "damaged_line1 = ''1 25544U 98067A   24001.00000000  .00016717  00000-0  10270-3 0  9997''"

definition damaged_catalog :: tle_fetcher where
  "damaged_catalog = \<lparr>r_text = ''ISS (ZARYA)\<newline>'' @ damaged_line1 @ ''\<newline>2 25544  51.6416''\<rparr>"

definition two_line_catalog :: tle_fetcher where
  "two_line_catalog = \<lparr>r_text = ''ISS (ZARYA)\<newline>1 25544U 98067A''\<rparr>"

definition first_world :: world where
  "first_world = \<lparr>catalog = Some ''ISS\<newline>1 old\<newline>2 old'', requests_log = []\<rparr>"

text \<open>
  A library for running \<open>propagate\<close> on a sample: its kernel answers every query with the
  error code \<open>code\<close> and the vectors \<open>p\<close> and \<open>v\<close>.
\<close>

definition answering ::
  "int \<Rightarrow> 'vec \<Rightarrow> 'vec \<Rightarrow> (rat, string \<times> string, 'vec) sgp4_api" where
  "answering code p v =
     \<lparr>jday = (\<lambda>y m d h mi s. (of_int (ymd2ord y m d), (of_int ((h * 60 + mi) * 60) + s) / 86400)),
      twoline2rv = (\<lambda>l1 l2. Inr (l1, l2)),
      sgp4 = (\<lambda>satrec jd fr. (code, p, v))\<rparr>"

section \<open>The loop of fetch\_tle\<close>

lemma store_group_apply:
  "store_group ls tle k x = (if x = group_name ls k then Some (group_record ls k) else tle x)"
  by (simp add: store_group_def)

lemma fetch_loop_foldl:
  "\<forall>k \<in> set ks. 3 * k + 2 < length ls \<Longrightarrow>
   fetch_loop ls (map (\<lambda>k. 3 * k) ks) tle = Inr (foldl (store_group ls) tle ks)"
  by (induction ks arbitrary: tle)
     (simp_all add: store_group_def group_name_def group_record_def Let_def)

lemma range3_mult: "n mod 3 = 0 \<Longrightarrow> range3 n = map (\<lambda>k. 3 * k) [0..<n div 3]"
  unfolding range3_def by (subgoal_tac "(n + 2) div 3 = n div 3") (simp, presburger)

lemma fetch_tle_foldl:
  assumes "length (splitlines (r_text m)) mod 3 = 0"
  shows "fetch_tle m = Inr (foldl (store_group (splitlines (r_text m))) Map.empty
            [0..<length (splitlines (r_text m)) div 3])"
proof -
  let ?ls = "splitlines (r_text m)"
  have "\<forall>k \<in> set [0..<length ?ls div 3]. 3 * k + 2 < length ?ls"
    using assms by auto
  then show ?thesis
    using assms by (simp add: fetch_tle_def Let_def range3_mult fetch_loop_foldl)
qed

lemma foldl_store_step:
  "foldl (store_group ls) tle [0..<Suc n] = store_group ls (foldl (store_group ls) tle [0..<n]) n"
  by simp

lemma dom_foldl_store:
  "dom (foldl (store_group ls) tle [0..<n]) = dom tle \<union> group_name ls ` {..<n}"
proof (induction n)
  case 0 show ?case by simp
next
  case (Suc n)
  have "dom (store_group ls (foldl (store_group ls) tle [0..<n]) n)
      = insert (group_name ls n) (dom (foldl (store_group ls) tle [0..<n]))"
    by (simp add: store_group_def)
  then show ?case
    unfolding foldl_store_step using Suc.IH by (auto simp: lessThan_Suc)
qed

lemma foldl_store_last:
  assumes "k < n" and "last_of_name ls n k"
  shows "foldl (store_group ls) tle [0..<n] (group_name ls k) = Some (group_record ls k)"
  using assms
proof (induction n)
  case 0 then show ?case by simp
next
  case (Suc n)
  show ?case
  proof (cases "k = n")
    case True then show ?thesis
      unfolding foldl_store_step by (subst store_group_apply) simp
  next
    case False
    with Suc.prems have "k < n" by simp
    moreover from Suc.prems have "last_of_name ls n k" by (simp add: last_of_name_def)
    ultimately have IH: "foldl (store_group ls) tle [0..<n] (group_name ls k) = Some (group_record ls k)"
      by (rule Suc.IH)
    from Suc.prems \<open>k < n\<close> have neq: "group_name ls k \<noteq> group_name ls n"
      by (fastforce simp: last_of_name_def)
    show ?thesis
      unfolding foldl_store_step by (subst store_group_apply) (simp only: neq if_False IH)
  qed
qed

lemma ran_foldl_store:
  "ran (foldl (store_group ls) tle [0..<n]) \<subseteq> ran tle \<union> group_record ls ` {..<n}"
proof (induction n)
  case 0 show ?case by simp
next
  case (Suc n)
  have "ran (store_group ls (foldl (store_group ls) tle [0..<n]) n)
      \<subseteq> insert (group_record ls n) (ran (foldl (store_group ls) tle [0..<n]))"
    by (auto simp: store_group_def ran_def)
  then show ?case
    unfolding foldl_store_step using Suc.IH by (auto simp: lessThan_Suc)
qed

section \<open>The catalog dictionary\<close>

text \<open>
  C9. When the number of lines of the catalog is a multiple of 3, \<open>fetch_tle\<close> returns a
  dictionary whose keys are the stripped name lines of the groups; under the name of a
  group that is the last one with that name it holds that group's record, so an earlier
  group of the same name is overwritten, and the dictionary has at most as many entries
  as there are groups.
\<close>

theorem fetch_tle_keyed_by_name_last_wins:
  assumes "length (splitlines (r_text m)) mod 3 = 0"
  shows "let ls = splitlines (r_text m); n = length ls div 3 in
         \<exists>tle. fetch_tle m = Inr tle
           \<and> dom tle = group_name ls ` {..<n}
           \<and> (\<forall>k<n. last_of_name ls n k \<longrightarrow> tle (group_name ls k) = Some (group_record ls k))
           \<and> card (dom tle) \<le> n"
proof -
  let ?ls = "splitlines (r_text m)"
  let ?n = "length ?ls div 3"
  let ?tle = "foldl (store_group ?ls) Map.empty [0..<?n]"
  have 1: "fetch_tle m = Inr ?tle" using assms by (rule fetch_tle_foldl)
  have 2: "dom ?tle = group_name ?ls ` {..<?n}" by (simp add: dom_foldl_store)
  have 3: "\<forall>k<?n. last_of_name ?ls ?n k \<longrightarrow> ?tle (group_name ?ls k) = Some (group_record ?ls k)"
    by (simp add: foldl_store_last)
  have "card (group_name ?ls ` {..<?n}) \<le> card {..<?n}" by (rule card_image_le) simp
  then have 4: "card (dom ?tle) \<le> ?n" using 2 by simp
  show ?thesis unfolding Let_def using 1 2 3 4 by blast
qed

lemma splitlines_twice:
  "splitlines (r_text twice_catalog) = [''ISS'', ''1 old'', ''2 old'', '' ISS '', ''1 new'', ''2 new'']"
  by (simp add: twice_catalog_def splitlines_def is_linebreak_def)

lemma strip_ISS: "strip ''ISS'' = ''ISS''" "strip '' ISS '' = ''ISS''"
  by (simp_all add: strip_def is_space_def)

theorem fetch_tle_keyed_by_name_last_wins_witness:
  "length (splitlines (r_text twice_catalog)) mod 3 = 0
   \<and> length (splitlines (r_text twice_catalog)) div 3 = 2
   \<and> (\<exists>tle. fetch_tle twice_catalog = Inr tle
         \<and> dom tle = {''ISS''}
         \<and> tle ''ISS'' = Some \<lparr>name = ''ISS'', line1 = ''1 new'', line2 = ''2 new''\<rparr>
         \<and> card (dom tle) < 2)"
proof -
  have h: "length (splitlines (r_text twice_catalog)) mod 3 = 0"
    by (simp add: splitlines_twice)
  have l: "last_of_name (splitlines (r_text twice_catalog)) 2 1"
    by (simp add: last_of_name_def)
  have i: "group_name (splitlines (r_text twice_catalog)) ` {..<2} = {''ISS''}"
    by (auto simp: splitlines_twice group_name_def strip_ISS lessThan_Suc numeral_2_eq_2 less_Suc_eq)
  from fetch_tle_keyed_by_name_last_wins [OF h]
  obtain tle where t: "fetch_tle twice_catalog = Inr tle"
    "dom tle = group_name (splitlines (r_text twice_catalog)) ` {..<2}"
    "\<forall>k<2. last_of_name (splitlines (r_text twice_catalog)) 2 k \<longrightarrow>
        tle (group_name (splitlines (r_text twice_catalog)) k)
          = Some (group_record (splitlines (r_text twice_catalog)) k)"
    by (auto simp: Let_def splitlines_twice)
  from t(3) l have "tle (group_name (splitlines (r_text twice_catalog)) 1)
          = Some (group_record (splitlines (r_text twice_catalog)) 1)" by simp
  then have v: "tle ''ISS'' = Some \<lparr>name = ''ISS'', line1 = ''1 new'', line2 = ''2 new''\<rparr>"
    by (simp add: splitlines_twice group_name_def group_record_def strip_ISS)
  show ?thesis using h t(1) t(2) v i by (simp add: splitlines_twice)
qed

section \<open>The request at import\<close>

text \<open>
  C8. Loading \<open>tle_fetcher\<close> issues one request to the catalog, whatever the world: the
  fetch is a side effect of the import, not of a call.
\<close>

theorem import_tle_fetcher_issues_request:
  "requests_log (snd (import_tle_fetcher w)) = requests_log w @ [catalog_url]"
  by (simp add: import_tle_fetcher_def requests_get_def split: option.splits)

text \<open>Running \<open>main.py\<close> issues that one request, however the run ends.\<close>

lemma main_issues_one_request:
  "requests_log (snd (main api w)) = requests_log w @ [catalog_url]"
  by (simp add: main_def import_tle_fetcher_def requests_get_def
      split: option.splits sum.splits)

lemma run_results:
  "run m w es = (rs, w') \<Longrightarrow>
     rs = replicate (length (filter (\<lambda>e. e = CallFetchTle) es)) (fetch_tle m)
     \<and> requests_log w' = requests_log w"
proof (induction m w es arbitrary: rs w' rule: run.induct)
  case (1 m w) then show ?case by simp
next
  case (2 m w c es) then show ?case by simp
next
  case (3 m w es) then show ?case by (auto split: prod.splits)
qed

text \<open>
  C10. After the import, in any run of catalog changes and calls of \<open>fetch_tle\<close>, every
  call parses the text the catalog held at the import and returns the same result, each
  call has a result, and no further request is issued.
\<close>

theorem fetch_tle_parses_import_time_text:
  assumes "import_tle_fetcher w = (Inr m, w1)" and "run m w1 es = (rs, w2)"
  shows "catalog w = Some (r_text m)
       \<and> length rs = length (filter (\<lambda>e. e = CallFetchTle) es)
       \<and> (\<forall>r \<in> set rs. r = fetch_tle m)
       \<and> requests_log w2 = requests_log w @ [catalog_url]"
proof -
  from assms(1) have c: "catalog w = Some (r_text m)"
    and l: "requests_log w1 = requests_log w @ [catalog_url]"
    by (auto simp: import_tle_fetcher_def requests_get_def split: option.splits)
  from run_results [OF assms(2)] show ?thesis using c l by simp
qed

theorem fetch_tle_parses_import_time_text_witness:
  "import_tle_fetcher first_world
     = (Inr \<lparr>r_text = ''ISS\<newline>1 old\<newline>2 old''\<rparr>, first_world\<lparr>requests_log := [catalog_url]\<rparr>)
   \<and> run \<lparr>r_text = ''ISS\<newline>1 old\<newline>2 old''\<rparr> (first_world\<lparr>requests_log := [catalog_url]\<rparr>)
        [CallFetchTle, CatalogChanges (Some ''ISS\<newline>1 new\<newline>2 new''), CallFetchTle, CatalogChanges None, CallFetchTle]
     = (replicate 3 (Inr [''ISS'' \<mapsto> \<lparr>name = ''ISS'', line1 = ''1 old'', line2 = ''2 old''\<rparr>]),
        \<lparr>catalog = None, requests_log = [catalog_url]\<rparr>)"
proof -
  let ?m = "\<lparr>r_text = ''ISS\<newline>1 old\<newline>2 old''\<rparr>"
  let ?w1 = "first_world\<lparr>requests_log := [catalog_url]\<rparr>"
  let ?es = "[CallFetchTle, CatalogChanges (Some ''ISS\<newline>1 new\<newline>2 new''), CallFetchTle, CatalogChanges None, CallFetchTle]"
  have i: "import_tle_fetcher first_world = (Inr ?m, ?w1)"
    by (simp add: import_tle_fetcher_def requests_get_def first_world_def)
  have f: "fetch_tle ?m = Inr [''ISS'' \<mapsto> \<lparr>name = ''ISS'', line1 = ''1 old'', line2 = ''2 old''\<rparr>]"
    by (simp add: fetch_tle_def splitlines_def is_linebreak_def range3_def strip_ISS Let_def)
  obtain rs w2 where r: "run ?m ?w1 ?es = (rs, w2)" by force
  have w: "w2 = \<lparr>catalog = None, requests_log = [catalog_url]\<rparr>"
    using r by (simp add: first_world_def split: prod.splits)
  from fetch_tle_parses_import_time_text [OF i r]
  have "length rs = 3" and "\<forall>r \<in> set rs. r = fetch_tle ?m"
    by (simp_all add: first_world_def)
  then have "rs = replicate 3 (fetch_tle ?m)"
    by (metis replicate_eqI)
  with i r w f show ?thesis by simp
qed

section \<open>The sample satellite at its epoch\<close>

lemma py_float_iss: "py_float (slice 18 32 (line1 iss)) = Inr (Finite 24001)"
  by (simp add: iss_def iss_line1_def slice_def py_float_def is_float_space_def take_sign_def
      floatnumber_def digitpart_def is_digit_def exponent_def digits_val_def digit_val_def lower_def)

lemma ord2ymd_738887: "ord2ymd 738887 = (2024, 1, 2)"
  by (simp add: ord2ymd_def month_preceding_def DI400Y_def DI100Y_def DI4Y_def
      DAYS_BEFORE_MONTH_def DAYS_IN_MONTH_def Let_def)

lemma ymd2ord_2024: "ymd2ord 2024 1 1 = 738886" "ymd2ord 2024 1 2 = 738887"
  by (simp_all add: ymd2ord_def days_before_year_def days_before_month_def
      DAYS_BEFORE_MONTH_def is_leap_def Let_def)

lemma round_half_even_of_int: "round_half_even (of_int k) = k"
  by (simp add: round_half_even_def)

lemma tle_epoch_24001:
  "tle_epoch_to_datetime (Finite 24001) =
     Inr \<lparr>year = 2024, month = 1, day = 2, hour = 0, minute = 0, second = 0, microsecond = 0\<rparr>"
proof -
  have r: "round_half_even 86400000000 = 86400000000"
    using round_half_even_of_int [of 86400000000] by simp
  have f: "\<lfloor>24001 / 1000 :: rat\<rfloor> = 24" by (rule floor_unique) simp_all
  show ?thesis
    by (simp add: tle_epoch_to_datetime_def f datetime_jan1_def timedelta_days_def r
        new_timedelta_def US_PER_DAY_def datetime_add_def to_us_def toordinal_def ymd2ord_2024
        ord2ymd_738887 MAXORDINAL_def Let_def)
qed

lemma dt_tsince_iss:
  "dt_tsince iss 0 =
     Inr \<lparr>year = 2024, month = 1, day = 2, hour = 0, minute = 0, second = 0, microsecond = 0\<rparr>"
proof -
  have r: "round_half_even 0 = 0"
    using round_half_even_of_int [of 0] by simp
  show ?thesis
    by (simp add: dt_tsince_def py_float_iss tle_epoch_24001 timedelta_minutes_def r
        new_timedelta_def US_PER_DAY_def datetime_add_def to_us_def toordinal_def ymd2ord_2024
        ord2ymd_738887 MAXORDINAL_def Let_def)
qed

lemma propagate_at_kernel:
  assumes "dt_tsince sat t = Inr dt"
      and "twoline2rv api (line1 sat) (line2 sat) = Inr satrec"
      and "sgp4 api satrec (fst (datetime_to_jday api dt)) (snd (datetime_to_jday api dt)) = (code, p, v)"
  shows "propagate api sat t = (if code \<noteq> 0 then Inl (ValueError (ErrorCode code)) else Inr (p, v))"
  using assms by (simp add: propagate_def Let_def)

section \<open>No validation of element lines\<close>

lemma splitlines_damaged:
  "splitlines (r_text damaged_catalog) = [''ISS (ZARYA)'', damaged_line1, ''2 25544  51.6416'']"
  by (simp add: damaged_catalog_def damaged_line1_def splitlines_def is_linebreak_def)

lemma strip_ISS_ZARYA: "strip ''ISS (ZARYA)'' = ''ISS (ZARYA)''"
  by (simp add: strip_def is_space_def)

lemma damaged_line1_checksum: "length damaged_line1 = 69 \<and> checksum damaged_line1 = 2"
  by (simp add: damaged_line1_def checksum_def is_digit_def digit_val_def)

lemma damaged_lines_not_well_formed:
  "\<not> well_formed_line damaged_line1" "\<not> well_formed_line ''2 25544  51.6416''"
proof -
  show "\<not> well_formed_line damaged_line1"
    using damaged_line1_checksum
    by (simp add: well_formed_line_def) (simp add: damaged_line1_def digit_val_def)
  show "\<not> well_formed_line ''2 25544  51.6416''"
    by (simp add: well_formed_line_def)
qed

lemma py_float_damaged: "py_float (slice 18 32 damaged_line1) = Inr (Finite 24001)"
  by (simp add: damaged_line1_def slice_def py_float_def is_float_space_def take_sign_def
      floatnumber_def digitpart_def is_digit_def exponent_def digits_val_def digit_val_def lower_def)

lemma dt_tsince_damaged:
  "dt_tsince \<lparr>name = ''ISS (ZARYA)'', line1 = damaged_line1, line2 = ''2 25544  51.6416''\<rparr> 0 =
     Inr \<lparr>year = 2024, month = 1, day = 2, hour = 0, minute = 0, second = 0, microsecond = 0\<rparr>"
proof -
  have r: "round_half_even 0 = 0"
    using round_half_even_of_int [of 0] by simp
  show ?thesis
    by (simp add: dt_tsince_def py_float_damaged tle_epoch_24001 timedelta_minutes_def r
        new_timedelta_def US_PER_DAY_def datetime_add_def to_us_def toordinal_def ymd2ord_2024
        ord2ymd_738887 MAXORDINAL_def Let_def)
qed

text \<open>
  C4, as stated, fails: a catalog whose first element line has 69 characters and a wrong
  check digit, and whose second element line is cut short, is parsed into a record
  holding both lines; and \<open>propagate\<close> decodes the epoch of that record and computes the
  datetime of the query, raising nothing, before it hands the two lines to the library.
\<close>

theorem fetch_tle_accepts_damaged_lines:
  "\<not> well_formed_line damaged_line1
   \<and> \<not> well_formed_line ''2 25544  51.6416''
   \<and> fetch_tle damaged_catalog =
       Inr [''ISS (ZARYA)'' \<mapsto>
             \<lparr>name = ''ISS (ZARYA)'', line1 = damaged_line1, line2 = ''2 25544  51.6416''\<rparr>]
   \<and> dt_tsince \<lparr>name = ''ISS (ZARYA)'', line1 = damaged_line1, line2 = ''2 25544  51.6416''\<rparr> 0 =
       Inr \<lparr>year = 2024, month = 1, day = 2, hour = 0, minute = 0, second = 0, microsecond = 0\<rparr>"
proof -
  have c: "fetch_tle damaged_catalog =
       Inr [''ISS (ZARYA)'' \<mapsto>
             \<lparr>name = ''ISS (ZARYA)'', line1 = damaged_line1, line2 = ''2 25544  51.6416''\<rparr>]"
    by (simp add: fetch_tle_def splitlines_damaged range3_def strip_ISS_ZARYA Let_def)
  from damaged_lines_not_well_formed c dt_tsince_damaged show ?thesis by simp
qed

text \<open>
  C4, amended. \<open>fetch_tle\<close> checks the number of lines only. It raises \<open>ValueError\<close>
  exactly when that number is not a multiple of 3. Otherwise it returns a dictionary
  with an entry for the name of every group, and under the name of a group that is the
  last one with that name the record of that group, its two element lines as they
  stand, whatever their length and check digit; every record of the dictionary is a
  group of the catalog.
\<close>

theorem fetch_tle_checks_line_count_only:
  "let ls = splitlines (r_text m); n = length ls div 3 in
   case fetch_tle m of
     Inl e \<Rightarrow> e = ValueError NotEnoughLines \<and> length ls mod 3 \<noteq> 0
   | Inr tle \<Rightarrow>
       length ls mod 3 = 0
       \<and> dom tle = group_name ls ` {..<n}
       \<and> (\<forall>k<n. last_of_name ls n k \<longrightarrow> tle (group_name ls k) = Some (group_record ls k))
       \<and> ran tle \<subseteq> group_record ls ` {..<n}"
proof (cases "length (splitlines (r_text m)) mod 3 = 0")
  case True
  let ?ls = "splitlines (r_text m)"
  let ?n = "length ?ls div 3"
  let ?tle = "foldl (store_group ?ls) Map.empty [0..<?n]"
  have 1: "fetch_tle m = Inr ?tle" using True by (rule fetch_tle_foldl)
  have 2: "dom ?tle = group_name ?ls ` {..<?n}" by (simp add: dom_foldl_store)
  have 3: "\<forall>k<?n. last_of_name ?ls ?n k \<longrightarrow> ?tle (group_name ?ls k) = Some (group_record ?ls k)"
    by (simp add: foldl_store_last)
  have "ran ?tle \<subseteq> ran (Map.empty :: tle_dict) \<union> group_record ?ls ` {..<?n}"
    by (rule ran_foldl_store)
  then have 4: "ran ?tle \<subseteq> group_record ?ls ` {..<?n}" by simp
  show ?thesis unfolding Let_def 1 using True 2 3 4 by simp
next
  case False
  then show ?thesis by (simp add: fetch_tle_def)
qed

theorem fetch_tle_checks_line_count_only_witness:
  "\<not> well_formed_line damaged_line1
   \<and> \<not> well_formed_line ''2 25544  51.6416''
   \<and> (case fetch_tle damaged_catalog of
        Inl e \<Rightarrow> False
      | Inr tle \<Rightarrow>
          dom tle = {''ISS (ZARYA)''}
          \<and> tle ''ISS (ZARYA)'' =
              Some \<lparr>name = ''ISS (ZARYA)'', line1 = damaged_line1, line2 = ''2 25544  51.6416''\<rparr>)
   \<and> fetch_tle two_line_catalog = Inl (ValueError NotEnoughLines)"
proof -
  have s: "splitlines (r_text two_line_catalog) = [''ISS (ZARYA)'', ''1 25544U 98067A'']"
    by (simp add: two_line_catalog_def splitlines_def is_linebreak_def)
  have 1: "fetch_tle two_line_catalog = Inl (ValueError NotEnoughLines)"
    using fetch_tle_checks_line_count_only [of two_line_catalog]
    by (cases "fetch_tle two_line_catalog") (simp_all add: s)
  have l: "last_of_name (splitlines (r_text damaged_catalog)) 1 0"
    by (simp add: last_of_name_def)
  have 2: "(case fetch_tle damaged_catalog of
        Inl e \<Rightarrow> False
      | Inr tle \<Rightarrow>
          dom tle = {''ISS (ZARYA)''}
          \<and> tle ''ISS (ZARYA)'' =
              Some \<lparr>name = ''ISS (ZARYA)'', line1 = damaged_line1, line2 = ''2 25544  51.6416''\<rparr>)"
    using fetch_tle_checks_line_count_only [of damaged_catalog] l
    by (cases "fetch_tle damaged_catalog")
       (simp_all add: splitlines_damaged group_record_def group_name_def strip_ISS_ZARYA
          lessThan_Suc)
  from damaged_lines_not_well_formed 1 2 show ?thesis by simp
qed

section \<open>Outcomes of propagate\<close>

text \<open>
  C3, as stated, fails: when the kernel answers a query with the error code 6, by which
  the \<open>sgp4\<close> package reports a decayed satellite, \<open>propagate\<close> raises \<open>ValueError\<close>; no
  outcome of its own stands for decay.
\<close>

theorem propagate_raises_on_decay_code:
  "propagate (answering 6 (0::rat, 0::rat, 0::rat) (0, 0, 0)) iss 0 = Inl (ValueError (ErrorCode 6))"
  by (simp add: propagate_def dt_tsince_iss answering_def Let_def)

text \<open>
  C3, amended. Whenever the kernel answers the query with an error code other than 0,
  the code for decay included, \<open>propagate\<close> raises \<open>ValueError\<close> with the message
  \<open>Error code:\<close> and that code: decay is raised like every other failure of the kernel
  and is told apart by the code alone.
\<close>

theorem propagate_kernel_code_raises:
  assumes "dt_tsince sat t = Inr dt"
      and "twoline2rv api (line1 sat) (line2 sat) = Inr satrec"
      and "sgp4 api satrec (fst (datetime_to_jday api dt)) (snd (datetime_to_jday api dt)) = (code, p, v)"
      and "code \<noteq> 0"
  shows "propagate api sat t = Inl (ValueError (ErrorCode code))"
  using propagate_at_kernel [OF assms(1-3)] assms(4) by simp

theorem propagate_kernel_code_raises_witness:
  "propagate (answering 6 (0::rat, 0::rat, 0::rat) (0, 0, 0)) iss 0 = Inl (ValueError (ErrorCode 6))
   \<and> propagate (answering 4 (0::rat, 0::rat, 0::rat) (0, 0, 0)) iss 0 = Inl (ValueError (ErrorCode 4))"
proof -
  have "propagate (answering c (0::rat, 0::rat, 0::rat) (0, 0, 0)) iss 0 = Inl (ValueError (ErrorCode c))"
    if "c \<noteq> 0" for c
    by (rule propagate_kernel_code_raises [OF dt_tsince_iss _ _ that])
       (simp_all add: answering_def)
  from this [of 6] this [of 4] show ?thesis by simp
qed

text \<open>
  C5. Once the query datetime is computed and the library has built its record,
  the outcome of \<open>propagate\<close> is the kernel's: its two vectors, as they are, when the error
  code is 0, and otherwise a \<open>ValueError\<close> carrying the code; no vector is returned in
  place of a failure.
\<close>

theorem propagate_surfaces_kernel_outcome:
  assumes "dt_tsince sat t = Inr dt"
      and "twoline2rv api (line1 sat) (line2 sat) = Inr satrec"
  shows "case sgp4 api satrec (fst (datetime_to_jday api dt)) (snd (datetime_to_jday api dt)) of
           (code, p, v) \<Rightarrow>
             propagate api sat t = (if code = 0 then Inr (p, v) else Inl (ValueError (ErrorCode code)))"
  using assms by (simp add: propagate_def Let_def split: prod.splits)

theorem propagate_surfaces_kernel_outcome_witness:
  "propagate (answering 4 (1::rat, 2::rat, 3::rat) (4, 5, 6)) iss 0 = Inl (ValueError (ErrorCode 4))
   \<and> propagate (answering 0 (1::rat, 2::rat, 3::rat) (4, 5, 6)) iss 0 = Inr ((1, 2, 3), (4, 5, 6))"
proof -
  have t: "twoline2rv (answering c (1::rat, 2::rat, 3::rat) (4, 5, 6)) (line1 iss) (line2 iss)
             = Inr (line1 iss, line2 iss)" for c
    by (simp add: answering_def)
  from propagate_surfaces_kernel_outcome [OF dt_tsince_iss t [of 4]]
       propagate_surfaces_kernel_outcome [OF dt_tsince_iss t [of 0]]
  show ?thesis by (simp add: answering_def)
qed

section \<open>Ordinals and dates\<close>

lemma month_preceding_ok:
  assumes "0 \<le> e" and "e < 365"
  shows "case month_preceding leap e of
           (m, p) \<Rightarrow> DAYS_BEFORE_MONTH ! nat m + (if 2 < m \<and> leap then 1 else 0) = p"
proof -
  define k where "k = (e + 50) div 32"
  have "1 \<le> k" "k \<le> 12" using assms by (auto simp: k_def)
  then have "k = 1 \<or> k = 2 \<or> k = 3 \<or> k = 4 \<or> k = 5 \<or> k = 6 \<or> k = 7 \<or> k = 8
      \<or> k = 9 \<or> k = 10 \<or> k = 11 \<or> k = 12" by arith
  then consider "(e + 50) div 32 = 1" | "(e + 50) div 32 = 2" | "(e + 50) div 32 = 3"
    | "(e + 50) div 32 = 4" | "(e + 50) div 32 = 5" | "(e + 50) div 32 = 6"
    | "(e + 50) div 32 = 7" | "(e + 50) div 32 = 8" | "(e + 50) div 32 = 9"
    | "(e + 50) div 32 = 10" | "(e + 50) div 32 = 11" | "(e + 50) div 32 = 12"
    unfolding k_def by blast
  then show ?thesis
    using assms(1)
    by cases (simp_all add: month_preceding_def DAYS_BEFORE_MONTH_def DAYS_IN_MONTH_def Let_def)
qed

lemma div_mod_offset:
  fixes k r q :: int
  assumes "0 \<le> r" and "r < q"
  shows "(q * k + r) div q = k" and "(q * k + r) mod q = r"
  using assms by (simp_all add: div_pos_pos_trivial)

lemma leapyear_is_leap:
  assumes "0 \<le> b" "b \<le> 3" "0 \<le> c" "c \<le> 24" "0 \<le> d" "d \<le> 3"
  shows "is_leap (a * 400 + 1 + b * 100 + c * 4 + d) \<longleftrightarrow> d = 3 \<and> (c \<noteq> 24 \<or> b = 3)"
proof -
  let ?Y = "a * 400 + 1 + b * 100 + c * 4 + d"
  have e4: "?Y = 4 * (100 * a + 25 * b + c) + (1 + d)" by simp
  have e100: "?Y = 100 * (4 * a + b) + (1 + 4 * c + d)" by simp
  have e400: "?Y = 400 * a + (1 + 100 * b + 4 * c + d)" by simp
  have m4: "?Y mod 4 = 0 \<longleftrightarrow> d = 3"
  proof (cases "d = 3")
    case True
    have "?Y = 4 * (100 * a + 25 * b + c + 1)" using True by simp
    then have "?Y mod 4 = 0" by (simp only: mod_mult_self1_is_0)
    then show ?thesis using True by blast
  next
    case False
    then have "1 + d < 4" "0 \<le> 1 + d" using assms by auto
    then have "?Y mod 4 = 1 + d" unfolding e4 by (rule div_mod_offset(2)[rotated])
    then show ?thesis using False assms by simp
  qed
  have m100: "?Y mod 100 = 0 \<longleftrightarrow> c = 24 \<and> d = 3"
  proof (cases "c = 24 \<and> d = 3")
    case True
    have "?Y = 100 * (4 * a + b + 1)" using True by simp
    then have "?Y mod 100 = 0" by (simp only: mod_mult_self1_is_0)
    then show ?thesis using True by blast
  next
    case False
    then have "1 + 4 * c + d < 100" "0 \<le> 1 + 4 * c + d" using assms by auto
    then have "?Y mod 100 = 1 + 4 * c + d" unfolding e100 by (rule div_mod_offset(2)[rotated])
    then show ?thesis using False assms by auto
  qed
  have m400: "?Y mod 400 = 0 \<longleftrightarrow> b = 3 \<and> c = 24 \<and> d = 3"
  proof (cases "b = 3 \<and> c = 24 \<and> d = 3")
    case True
    have "?Y = 400 * (a + 1)" using True by simp
    then have "?Y mod 400 = 0" by (simp only: mod_mult_self1_is_0)
    then show ?thesis using True by blast
  next
    case False
    then have "1 + 100 * b + 4 * c + d < 400" "0 \<le> 1 + 100 * b + 4 * c + d" using assms by auto
    then have "?Y mod 400 = 1 + 100 * b + 4 * c + d" unfolding e400 by (rule div_mod_offset(2)[rotated])
    then show ?thesis using False assms by auto
  qed
  show ?thesis unfolding is_leap_def m4 m100 m400 by blast
qed

lemma days_before_year_split:
  assumes "0 \<le> b" "b \<le> 3" "0 \<le> c" "c \<le> 24" "0 \<le> d" "d \<le> 3"
  shows "days_before_year (a * 400 + 1 + b * 100 + c * 4 + d)
           = 146097 * a + 36524 * b + 1461 * c + 365 * d"
proof -
  let ?y = "a * 400 + b * 100 + c * 4 + d"
  have "?y = 4 * (100 * a + 25 * b + c) + d" by simp
  moreover have "0 \<le> d" "d < 4" using assms by auto
  ultimately have d4: "?y div 4 = 100 * a + 25 * b + c"
    by (simp only: div_mod_offset(1))
  have "?y = 100 * (4 * a + b) + (4 * c + d)" by simp
  moreover have "0 \<le> 4 * c + d" "4 * c + d < 100" using assms by auto
  ultimately have d100: "?y div 100 = 4 * a + b"
    by (simp only: div_mod_offset(1))
  have "?y = 400 * a + (100 * b + 4 * c + d)" by simp
  moreover have "0 \<le> 100 * b + 4 * c + d" "100 * b + 4 * c + d < 400" using assms by auto
  ultimately have d400: "?y div 400 = a"
    by (simp only: div_mod_offset(1))
  have "a * 400 + 1 + b * 100 + c * 4 + d - 1 = ?y" by simp
  then show ?thesis
    unfolding days_before_year_def Let_def by (simp only: d4 d100 d400) simp
qed

lemma ymd2ord_ord2ymd: "(case ord2ymd n of (y, m, d) \<Rightarrow> ymd2ord y m d) = n"
proof -
  define a where "a = (n - 1) div 146097"
  define r where "r = (n - 1) mod 146097"
  define b where "b = r div 36524"
  define r1 where "r1 = r mod 36524"
  define c where "c = r1 div 1461"
  define r2 where "r2 = r1 mod 1461"
  define d where "d = r2 div 365"
  define e where "e = r2 mod 365"
  define Y where "Y = a * 400 + 1 + b * 100 + c * 4 + d"
  have n: "n - 1 = 146097 * a + r" and r: "0 \<le> r" "r < 146097"
    by (simp_all add: a_def r_def)
  have r_eq: "r = 36524 * b + r1" and r1: "0 \<le> r1" "r1 < 36524"
    by (simp_all add: b_def r1_def)
  have r1_eq: "r1 = 1461 * c + r2" and r2: "0 \<le> r2" "r2 < 1461"
    by (simp_all add: c_def r2_def)
  have r2_eq: "r2 = 365 * d + e" and e: "0 \<le> e" "e < 365"
    by (simp_all add: d_def e_def)
  have b: "0 \<le> b" "b \<le> 4" using r by (simp_all add: b_def)
  have c: "0 \<le> c" "c \<le> 24" using r1 by (simp_all add: c_def)
  have d: "0 \<le> d" "d \<le> 4" using r2 by (simp_all add: d_def)
  have o: "ord2ymd n =
      (if d = 4 \<or> b = 4 then (Y - 1, 12, 31)
       else case month_preceding (d = 3 \<and> (c \<noteq> 24 \<or> b = 3)) e of (m, p) \<Rightarrow> (Y, m, e - p + 1))"
    by (simp add: ord2ymd_def Let_def DI400Y_def DI100Y_def DI4Y_def
        a_def r_def b_def r1_def c_def r2_def d_def e_def Y_def)
  have dec: "DAYS_BEFORE_MONTH ! 12 = 334" by (simp add: DAYS_BEFORE_MONTH_def)
  show ?thesis
  proof (cases "b = 4")
    case True
    with r r_eq r1 have "r1 = 0" by simp
    with r1_eq r2 c have "c = 0" "r2 = 0" by auto
    with r2_eq e d have "d = 0" "e = 0" by auto
    have Y': "Y - 1 = a * 400 + 1 + 3 * 100 + 24 * 4 + 3"
      using True \<open>c = 0\<close> \<open>d = 0\<close> by (simp add: Y_def)
    have "days_before_year (Y - 1) = 146097 * a + 36524 * 3 + 1461 * 24 + 365 * 3"
      unfolding Y' by (rule days_before_year_split) simp_all
    moreover have "is_leap (Y - 1)"
      unfolding Y' by (subst leapyear_is_leap) simp_all
    ultimately have "ymd2ord (Y - 1) 12 31 = n"
      using n r_eq True \<open>r1 = 0\<close> by (simp add: ymd2ord_def days_before_month_def dec)
    then show ?thesis using True by (simp add: o)
  next
    case b4: False
    with b have b3: "b \<le> 3" by simp
    show ?thesis
    proof (cases "d = 4")
      case True
      with r2_eq r2 e have "e = 0" by simp
      have "c \<noteq> 24" using r1_eq r2_eq True \<open>e = 0\<close> r1 by auto
      with c have c23: "c \<le> 24" by simp
      have Y': "Y - 1 = a * 400 + 1 + b * 100 + c * 4 + 3"
        using True by (simp add: Y_def)
      have "days_before_year (Y - 1) = 146097 * a + 36524 * b + 1461 * c + 365 * 3"
        unfolding Y' using b(1) b3 c(1) c23 by (intro days_before_year_split) simp_all
      moreover have "is_leap (Y - 1)"
        unfolding Y' using b(1) b3 c(1) c23 \<open>c \<noteq> 24\<close> by (subst leapyear_is_leap) simp_all
      ultimately have "ymd2ord (Y - 1) 12 31 = n"
        using n r_eq r1_eq r2_eq True \<open>e = 0\<close>
        by (simp add: ymd2ord_def days_before_month_def dec)
      then show ?thesis using True by (simp add: o)
    next
      case False
      with d have d3: "d \<le> 3" by simp
      obtain m p where mp: "month_preceding (d = 3 \<and> (c \<noteq> 24 \<or> b = 3)) e = (m, p)"
        by (cases "month_preceding (d = 3 \<and> (c \<noteq> 24 \<or> b = 3)) e")
      from month_preceding_ok [OF e, of "d = 3 \<and> (c \<noteq> 24 \<or> b = 3)"] mp
      have p: "DAYS_BEFORE_MONTH ! nat m + (if 2 < m \<and> (d = 3 \<and> (c \<noteq> 24 \<or> b = 3)) then 1 else 0) = p"
        by simp
      have leap: "is_leap Y \<longleftrightarrow> d = 3 \<and> (c \<noteq> 24 \<or> b = 3)"
        unfolding Y_def using b(1) b3 c d(1) d3 by (intro leapyear_is_leap)
      have dby: "days_before_year Y = 146097 * a + 36524 * b + 1461 * c + 365 * d"
        unfolding Y_def using b(1) b3 c d(1) d3 by (intro days_before_year_split)
      have v: "ymd2ord Y m (e - p + 1) = n"
        using n r_eq r1_eq r2_eq p
        by (simp add: ymd2ord_def days_before_month_def dby leap)
      from False b4 have nb: "(d = 4 \<or> b = 4) = False" by simp
      have "ord2ymd n = (Y, m, e - p + 1)" unfolding o nb mp by simp
      then show ?thesis using v by simp
    qed
  qed
qed

section \<open>Adding a timedelta\<close>

lemma to_us_datetime_add:
  assumes "datetime_add dt delta = Inr dt'"
  shows "to_us dt' = to_us dt + delta"
proof -
  define total where "total = to_us dt + delta"
  define rest where "rest = total mod 86400000000"
  define secs where "secs = rest div 1000000"
  obtain y m d where o: "ord2ymd (total div 86400000000) = (y, m, d)"
    by (cases "ord2ymd (total div 86400000000)")
  from ymd2ord_ord2ymd [of "total div 86400000000"] o
  have ord: "ymd2ord y m d = total div 86400000000" by simp
  from assms o have dt': "dt' = \<lparr>year = y, month = m, day = d,
       hour = secs div 3600, minute = secs mod 3600 div 60,
       second = secs mod 60, microsecond = rest mod 1000000\<rparr>"
    by (simp add: datetime_add_def Let_def US_PER_DAY_def total_def rest_def secs_def
        split: if_splits)
  have "secs mod 3600 mod 60 = secs mod 60"
    by (rule mod_mod_cancel) simp
  then have "secs mod 3600 div 60 * 60 + secs mod 60 = secs mod 3600"
    by (metis div_mult_mod_eq)
  moreover have "(secs div 3600 * 60 + secs mod 3600 div 60) * 60 + secs mod 60
      = secs div 3600 * 3600 + (secs mod 3600 div 60 * 60 + secs mod 60)"
    by (simp add: algebra_simps)
  ultimately have 1: "(secs div 3600 * 60 + secs mod 3600 div 60) * 60 + secs mod 60 = secs"
    using div_mult_mod_eq [of secs 3600] by linarith
  have 2: "secs * 1000000 + rest mod 1000000 = rest"
    by (simp add: secs_def)
  have 3: "total div 86400000000 * 86400000000 + rest = total"
    by (simp add: rest_def)
  have "to_us dt' = total div 86400000000 * 86400000000
          + ((secs div 3600 * 60 + secs mod 3600 div 60) * 60 + secs mod 60) * 1000000
          + rest mod 1000000"
    by (simp add: dt' to_us_def toordinal_def ord US_PER_DAY_def)
  also have "\<dots> = total" by (simp only: 1 2 3 add.assoc)
  finally show ?thesis by (simp add: total_def)
qed

lemma round_half_even_near: "\<bar>of_int (round_half_even q) - q\<bar> \<le> 1 / 2"
proof -
  have "of_int \<lfloor>q\<rfloor> \<le> q" "q < of_int \<lfloor>q\<rfloor> + 1" by linarith+
  then show ?thesis
    by (auto simp: round_half_even_def Let_def abs_le_iff)
qed

lemma round_half_even_mono_bounds:
  assumes "of_int lo \<le> q" and "q \<le> of_int hi"
  shows "lo \<le> round_half_even q" and "round_half_even q \<le> hi"
proof -
  have f: "lo \<le> \<lfloor>q\<rfloor>" using assms(1) by (simp add: le_floor_iff)
  have "of_int \<lfloor>q\<rfloor> \<le> q" by linarith
  show "lo \<le> round_half_even q"
    using f by (auto simp: round_half_even_def Let_def)
  show "round_half_even q \<le> hi"
  proof (cases "q = of_int hi")
    case True then show ?thesis by (simp add: round_half_even_def)
  next
    case False
    with assms(2) have "q < of_int hi" by simp
    then have "\<lfloor>q\<rfloor> < hi" by (simp add: floor_less_iff)
    then show ?thesis by (auto simp: round_half_even_def Let_def)
  qed
qed

lemma ymd2ord_jan1_2000s:
  assumes "0 \<le> yy" and "yy \<le> 99"
  shows "730000 \<le> ymd2ord (2000 + yy) 1 1" and "ymd2ord (2000 + yy) 1 1 \<le> 770000"
proof -
  have "499 \<le> (1999 + yy) div 4" "(1999 + yy) div 4 \<le> 524"
    "19 \<le> (1999 + yy) div 100" "(1999 + yy) div 100 \<le> 20"
    "4 \<le> (1999 + yy) div 400" "(1999 + yy) div 400 \<le> 5"
    using assms by simp_all
  then show "730000 \<le> ymd2ord (2000 + yy) 1 1" and "ymd2ord (2000 + yy) 1 1 \<le> 770000"
    using assms
    by (simp_all add: ymd2ord_def days_before_year_def days_before_month_def
      DAYS_BEFORE_MONTH_def Let_def)
qed

lemma epoch_floor:
  fixes doy :: rat
  assumes "0 \<le> doy" and "doy < 1000"
  shows "\<lfloor>(of_int yy * 1000 + doy) / 1000\<rfloor> = yy"
  using assms by (intro floor_unique) (simp_all add: field_simps)

lemma to_us_jan1:
  "to_us \<lparr>year = y, month = 1, day = 1, hour = 0, minute = 0, second = 0, microsecond = 0\<rparr>
     = ymd2ord y 1 1 * US_PER_DAY"
  by (simp add: to_us_def toordinal_def)

lemma datetime_add_ok:
  assumes "0 < (to_us dt + delta) div US_PER_DAY" and "(to_us dt + delta) div US_PER_DAY \<le> MAXORDINAL"
  shows "\<exists>dt'. datetime_add dt delta = Inr dt'"
  using assms by (simp add: datetime_add_def Let_def split: prod.splits)

lemma tle_epoch_to_datetime_2000s:
  assumes "0 \<le> yy" and "yy \<le> 99" and "0 \<le> doy" and "doy < 1000"
  shows "tle_epoch_to_datetime (Finite (of_int yy * 1000 + doy)) =
           datetime_add
             \<lparr>year = 2000 + yy, month = 1, day = 1, hour = 0, minute = 0, second = 0, microsecond = 0\<rparr>
             (round_half_even (doy * 86400 * 1000000))"
    and "\<exists>dt. tle_epoch_to_datetime (Finite (of_int yy * 1000 + doy)) = Inr dt"
proof -
  let ?delta = "round_half_even (doy * 86400 * 1000000)"
  let ?base = "\<lparr>year = 2000 + yy, month = 1, day = 1, hour = 0, minute = 0, second = 0, microsecond = 0\<rparr>"
  have "of_int 0 \<le> doy * 86400 * 1000000" "doy * 86400 * 1000000 \<le> of_int 86400000000000"
    using assms(3,4) by simp_all
  then have d: "0 \<le> ?delta" "?delta \<le> 86400000000000"
    by (rule round_half_even_mono_bounds)+
  then have "0 \<le> ?delta div 86400000000" "?delta div 86400000000 \<le> 1000"
    by simp_all
  then have nt: "new_timedelta ?delta = Inr ?delta"
    by (simp add: new_timedelta_def US_PER_DAY_def)
  have doy: "of_int yy * 1000 + doy - 1000 * of_int yy = doy" by simp
  show e: "tle_epoch_to_datetime (Finite (of_int yy * 1000 + doy)) = datetime_add ?base ?delta"
    using assms(1,2) nt
    by (simp add: tle_epoch_to_datetime_def epoch_floor [OF assms(3,4)] doy Let_def
        datetime_jan1_def timedelta_days_def)
  have "0 < (ymd2ord (2000 + yy) 1 1 * 86400000000 + ?delta) div 86400000000"
    and "(ymd2ord (2000 + yy) 1 1 * 86400000000 + ?delta) div 86400000000 \<le> 3652059"
    using ymd2ord_jan1_2000s [OF assms(1,2)] d by simp_all
  then have "\<exists>dt. datetime_add ?base ?delta = Inr dt"
    by (intro datetime_add_ok) (simp_all add: to_us_jan1 US_PER_DAY_def MAXORDINAL_def)
  then show "\<exists>dt. tle_epoch_to_datetime (Finite (of_int yy * 1000 + doy)) = Inr dt"
    by (simp add: e)
qed

lemma new_timedelta_Inr: "new_timedelta us = Inr td \<Longrightarrow> td = us"
  by (simp add: new_timedelta_def split: if_splits)

section \<open>The epoch year\<close>

text \<open>
  C2, as stated, fails: the epoch \<open>57001.0\<close>, day 1 of year 57, is decoded into a datetime
  of the year 2057, where the split-year convention gives 1957.
\<close>

theorem tle_epoch_year_2057:
  "tle_epoch_to_datetime (Finite 57001) =
     Inr \<lparr>year = 2057, month = 1, day = 2, hour = 0, minute = 0, second = 0, microsecond = 0\<rparr>
   \<and> split_year 57 = 1957"
proof -
  have r: "round_half_even 86400000000 = 86400000000"
    using round_half_even_of_int [of 86400000000] by simp
  have f: "\<lfloor>57001 / 1000 :: rat\<rfloor> = 57" by (rule floor_unique) simp_all
  have y: "ymd2ord 2057 1 1 = 750940"
    by (simp add: ymd2ord_def days_before_year_def days_before_month_def
      DAYS_BEFORE_MONTH_def is_leap_def Let_def)
  have o: "ord2ymd 750941 = (2057, 1, 2)"
    by (simp add: ord2ymd_def month_preceding_def DI400Y_def DI100Y_def DI4Y_def
      DAYS_BEFORE_MONTH_def DAYS_IN_MONTH_def Let_def)
  show ?thesis
    by (simp add: tle_epoch_to_datetime_def f datetime_jan1_def timedelta_days_def r
        new_timedelta_def US_PER_DAY_def datetime_add_def to_us_def toordinal_def y o
        MAXORDINAL_def Let_def split_year_def)
qed

text \<open>
  C2, amended. For every two-digit year \<open>YY\<close> from 0 to 99, on either side of 57, and
  every day of year below 1000, the epoch is decoded with the year \<open>2000 + YY\<close>: the
  datetime returned is the day of year, rounded to the microsecond, added to midnight of
  1 January \<open>2000 + YY\<close>.
\<close>

theorem tle_epoch_year_2000_plus_yy:
  assumes "0 \<le> yy" and "yy \<le> 99" and "0 \<le> doy" and "doy < 1000"
  shows "\<exists>dt. tle_epoch_to_datetime (Finite (of_int yy * 1000 + doy)) = Inr dt
           \<and> to_us dt = ymd2ord (2000 + yy) 1 1 * US_PER_DAY
                          + round_half_even (doy * 86400 * 1000000)"
proof -
  from tle_epoch_to_datetime_2000s(2) [OF assms]
  obtain dt where dt: "tle_epoch_to_datetime (Finite (of_int yy * 1000 + doy)) = Inr dt"
    by blast
  with tle_epoch_to_datetime_2000s(1) [OF assms]
  have "datetime_add
          \<lparr>year = 2000 + yy, month = 1, day = 1, hour = 0, minute = 0, second = 0, microsecond = 0\<rparr>
          (round_half_even (doy * 86400 * 1000000)) = Inr dt" by simp
  then have "to_us dt = ymd2ord (2000 + yy) 1 1 * US_PER_DAY
                          + round_half_even (doy * 86400 * 1000000)"
    by (simp add: to_us_datetime_add to_us_jan1)
  with dt show ?thesis by blast
qed

theorem tle_epoch_year_2000_plus_yy_witness:
  "(0::int) \<le> 57 \<and> (57::int) \<le> 99 \<and> (0::rat) \<le> 1 \<and> (1::rat) < 1000
   \<and> (\<exists>dt. tle_epoch_to_datetime (Finite 57001) = Inr dt
          \<and> to_us dt = ymd2ord 2057 1 1 * US_PER_DAY + 86400000000)"
proof -
  have r: "round_half_even 86400000000 = 86400000000"
    using round_half_even_of_int [of 86400000000] by simp
  from tle_epoch_year_2000_plus_yy [of 57 1] show ?thesis by (simp add: r)
qed

section \<open>The instant of the query\<close>

text \<open>
  C1. The claim asks for the epoch, day 1 being 1 January, plus \<open>tsince_minutes\<close>. For
  every record whose epoch field reads year \<open>YY\<close> below 57 and a day of year, and every
  \<open>tsince_minutes\<close>, the datetime \<open>propagate\<close> hands to the kernel is that instant plus one
  day, to the microsecond of the two roundings: day 1 is decoded as 2 January.
\<close>

theorem dt_tsince_one_day_after_epoch:
  assumes "0 \<le> yy" and "yy < 57" and "0 \<le> doy" and "doy < 1000"
      and "py_float (slice 18 32 (line1 sat)) = Inr (Finite (of_int yy * 1000 + doy))"
      and "dt_tsince sat t = Inr dt"
  shows "\<bar>of_int (to_us dt) - (spec_query_us yy doy t + 86400000000)\<bar> \<le> 1"
proof -
  from assms(5,6) obtain dt_epoch tsince where
    e: "tle_epoch_to_datetime (Finite (of_int yy * 1000 + doy)) = Inr dt_epoch"
    and m: "timedelta_minutes t = Inr tsince"
    and a: "datetime_add dt_epoch tsince = Inr dt"
    by (auto simp: dt_tsince_def split: sum.splits)
  have yy: "yy \<le> 99" using assms(2) by simp
  from tle_epoch_to_datetime_2000s(1) [OF assms(1) yy assms(3,4)] e
  have "datetime_add
          \<lparr>year = 2000 + yy, month = 1, day = 1, hour = 0, minute = 0, second = 0, microsecond = 0\<rparr>
          (round_half_even (doy * 86400 * 1000000)) = Inr dt_epoch" by simp
  then have 1: "to_us dt_epoch = ymd2ord (2000 + yy) 1 1 * US_PER_DAY
                          + round_half_even (doy * 86400 * 1000000)"
    by (simp add: to_us_datetime_add to_us_jan1)
  from m have 2: "tsince = round_half_even (t * 60 * 1000000)"
    by (simp add: timedelta_minutes_def new_timedelta_Inr)
  from a have 3: "to_us dt = to_us dt_epoch + tsince" by (rule to_us_datetime_add)
  have s: "spec_query_us yy doy t =
      of_int (ymd2ord (2000 + yy) 1 1 * US_PER_DAY) + (doy - 1) * 86400 * 1000000 + t * 60 * 1000000"
    using assms(2) by (simp add: spec_query_us_def spec_epoch_us_def split_year_def)
  have "of_int (to_us dt) - (spec_query_us yy doy t + 86400000000)
      = (of_int (round_half_even (doy * 86400 * 1000000)) - doy * 86400 * 1000000)
        + (of_int (round_half_even (t * 60 * 1000000)) - t * 60 * 1000000)"
    unfolding 3 1 2 s by (simp add: algebra_simps)
  moreover have "\<bar>of_int (round_half_even (doy * 86400 * 1000000)) - doy * 86400 * 1000000\<bar> \<le> 1 / 2"
    by (rule round_half_even_near)
  moreover have "\<bar>of_int (round_half_even (t * 60 * 1000000)) - t * 60 * 1000000\<bar> \<le> 1 / 2"
    by (rule round_half_even_near)
  ultimately show ?thesis by linarith
qed

theorem dt_tsince_one_day_after_epoch_witness:
  "dt_tsince iss 0 =
     Inr \<lparr>year = 2024, month = 1, day = 2, hour = 0, minute = 0, second = 0, microsecond = 0\<rparr>
   \<and> spec_query_us 24 1 0 =
       of_int (to_us \<lparr>year = 2024, month = 1, day = 1, hour = 0, minute = 0, second = 0, microsecond = 0\<rparr>)
   \<and> \<bar>of_int (to_us \<lparr>year = 2024, month = 1, day = 2, hour = 0, minute = 0, second = 0, microsecond = 0\<rparr>)
        - (spec_query_us 24 1 0 + 86400000000)\<bar> \<le> 1"
proof -
  have p: "py_float (slice 18 32 (line1 iss)) = Inr (Finite (of_int 24 * 1000 + 1))"
    by (simp add: py_float_iss)
  have s: "spec_query_us 24 1 0 =
       of_int (to_us \<lparr>year = 2024, month = 1, day = 1, hour = 0, minute = 0, second = 0, microsecond = 0\<rparr>)"
    by (simp add: spec_query_us_def spec_epoch_us_def split_year_def to_us_def toordinal_def)
  from dt_tsince_one_day_after_epoch [OF _ _ _ _ p dt_tsince_iss] dt_tsince_iss s
  show ?thesis by simp
qed

end
